theory Spec2Isabelle
  imports Main
begin

section \<open>JavaScript values\<close>

text \<open>
  The values that flow through the procedures of the health feature. Numbers are the
  integer millisecond counts of \<^verbatim>\<open>Date.now()\<close> and their quotients after
  \<^verbatim>\<open>Math.floor\<close>; a \<^verbatim>\<open>Date\<close> carries its epoch milliseconds. An object is the list
  of its own properties; a property that is absent reads as \<^verbatim>\<open>undefined\<close>.
\<close>

datatype jsval =
    JUndefined
  | JNull
  | JBool bool
  | JNum int
  | JStr string
  | JDate int
  | JArr "jsval list"
  | JObj "(string \<times> jsval) list"

text \<open>\<^verbatim>\<open>xs[i]\<close> on an array: an index past the end reads \<^verbatim>\<open>undefined\<close>.\<close>

fun index_js :: "jsval list \<Rightarrow> nat \<Rightarrow> jsval" where
  "index_js [] i = JUndefined"
| "index_js (x # xs) 0 = x"
| "index_js (x # xs) (Suc i) = index_js xs i"

datatype js_exn = TypeError string

text \<open>
  \<^verbatim>\<open>v.k\<close>: reading a property of \<^verbatim>\<open>undefined\<close> or \<^verbatim>\<open>null\<close> throws; an object gives
  its own property or \<^verbatim>\<open>undefined\<close>; the other values have no own property of the
  names read here (\<^verbatim>\<open>echo\<close>, \<^verbatim>\<open>type\<close>).
\<close>

fun member :: "jsval \<Rightarrow> string \<Rightarrow> js_exn + jsval" where
  "member JUndefined k = Inl (TypeError ''Cannot read properties of undefined'')"
| "member JNull k = Inl (TypeError ''Cannot read properties of null'')"
| "member (JObj props) k = Inr (case map_of props k of Some v \<Rightarrow> v | None \<Rightarrow> JUndefined)"
| "member v k = Inr JUndefined"

text \<open>\<^verbatim>\<open>v?.k\<close>: as \<^verbatim>\<open>v.k\<close>, but \<^verbatim>\<open>undefined\<close> and \<^verbatim>\<open>null\<close> give \<^verbatim>\<open>undefined\<close>.\<close>

definition opt_member :: "jsval \<Rightarrow> string \<Rightarrow> jsval" where
  "opt_member v k = (case member v k of Inl e \<Rightarrow> JUndefined | Inr r \<Rightarrow> r)"

text \<open>\<^verbatim>\<open>a ?? b\<close>: \<^verbatim>\<open>b\<close> when \<^verbatim>\<open>a\<close> is \<^verbatim>\<open>undefined\<close> or \<^verbatim>\<open>null\<close>.\<close>

definition nullish :: "jsval \<Rightarrow> jsval \<Rightarrow> jsval" where
  "nullish a b = (if a = JUndefined \<or> a = JNull then b else a)"

section \<open>Schemas (features/health/schemas/health.schema.ts)\<close>

text \<open>
  The schema constructors the file uses: \<^verbatim>\<open>z.string()\<close>, \<^verbatim>\<open>z.number()\<close>,
  \<^verbatim>\<open>z.date()\<close>, \<^verbatim>\<open>z.enum([...])\<close>, \<^verbatim>\<open>.optional()\<close> and \<^verbatim>\<open>z.object({...})\<close>.
\<close>

datatype schema =
    ZString
  | ZNumber
  | ZDate
  | ZEnum "string list"
  | ZOptional schema
  | ZObject "(string \<times> schema) list"

definition healthCheckSchema :: schema where
  "healthCheckSchema = ZObject
     [(''status'', ZEnum [''ok'', ''degraded'', ''error'']),
      (''timestamp'', ZDate),
      (''version'', ZString),
      (''uptime'', ZNumber)]"

definition pingSchema :: schema where
  "pingSchema = ZObject [(''message'', ZString), (''echo'', ZOptional ZString)]"

definition pingInputSchema :: schema where
  "pingInputSchema = ZObject [(''echo'', ZOptional ZString)]"

text \<open>
  A validation issue names the path of the value that was rejected (the empty path is the
  input itself) and what the schema expected there.
\<close>

datatype issue = Issue (issue_path: "string list") (expected: string)

text \<open>
  The object test of the validator: \<^verbatim>\<open>typeof v === "object"\<close>, not \<^verbatim>\<open>null\<close> and not
  an array. A plain object passes with its own properties. A \<^verbatim>\<open>Date\<close> passes too; it
  has no own property, so every declared key reads \<^verbatim>\<open>undefined\<close> on it.
\<close>

fun own_properties :: "jsval \<Rightarrow> (string \<times> jsval) list option" where
  "own_properties (JObj props) = Some props"
| "own_properties (JDate t) = Some []"
| "own_properties v = None"

text \<open>
  Parsing. A leaf accepts the values of its type. \<^verbatim>\<open>.optional()\<close> accepts
  \<^verbatim>\<open>undefined\<close> and otherwise parses with the inner schema. An object schema rejects
  what fails the object test (\<^verbatim>\<open>undefined\<close>, \<^verbatim>\<open>null\<close>, the primitives and arrays);
  on what passes it parses every declared key, collects the issues of all of them, and
  returns a new object with the declared keys only (unknown keys are stripped, and a key
  whose parsed value is \<^verbatim>\<open>undefined\<close> is kept only when the input had it).
\<close>

fun parse :: "schema \<Rightarrow> string list \<Rightarrow> jsval \<Rightarrow> issue list + jsval"
  and parse_shape :: "(string \<times> schema) list \<Rightarrow> string list \<Rightarrow> (string \<times> jsval) list
        \<Rightarrow> issue list \<times> (string \<times> jsval) list"
where
  "parse ZString path v = (case v of JStr s \<Rightarrow> Inr v | _ \<Rightarrow> Inl [Issue path ''string''])"
| "parse ZNumber path v = (case v of JNum n \<Rightarrow> Inr v | _ \<Rightarrow> Inl [Issue path ''number''])"
| "parse ZDate path v = (case v of JDate t \<Rightarrow> Inr v | _ \<Rightarrow> Inl [Issue path ''date''])"
| "parse (ZEnum opts) path v =
     (case v of
        JStr s \<Rightarrow> if s \<in> set opts then Inr v else Inl [Issue path ''enum'']
      | _ \<Rightarrow> Inl [Issue path ''enum''])"
| "parse (ZOptional s) path v = (if v = JUndefined then Inr JUndefined else parse s path v)"
| "parse (ZObject shape) path v =
     (case own_properties v of
        Some props \<Rightarrow>
          (case parse_shape shape path props of
             ([], out) \<Rightarrow> Inr (JObj out)
           | (is, out) \<Rightarrow> Inl is)
      | None \<Rightarrow> Inl [Issue path ''object''])"
| "parse_shape [] path props = ([], [])"
| "parse_shape ((k, s) # shape) path props =
     (let (is, out) = parse_shape shape path props in
      case parse s (path @ [k]) (case map_of props k of Some x \<Rightarrow> x | None \<Rightarrow> JUndefined) of
        Inl js \<Rightarrow> (js @ is, out)
      | Inr x \<Rightarrow> (is, if x = JUndefined \<and> map_of props k = None then out else (k, x) # out))"

text \<open>
  What the schemas accept, stated on the value alone: the declarative reading of
  \<^verbatim>\<open>health.schema.ts\<close> that the parser is compared with.
\<close>

fun conforms :: "schema \<Rightarrow> jsval \<Rightarrow> bool"
  and conforms_shape :: "(string \<times> schema) list \<Rightarrow> (string \<times> jsval) list \<Rightarrow> bool"
where
  "conforms ZString v = (case v of JStr s \<Rightarrow> True | _ \<Rightarrow> False)"
| "conforms ZNumber v = (case v of JNum n \<Rightarrow> True | _ \<Rightarrow> False)"
| "conforms ZDate v = (case v of JDate t \<Rightarrow> True | _ \<Rightarrow> False)"
| "conforms (ZEnum opts) v = (case v of JStr s \<Rightarrow> s \<in> set opts | _ \<Rightarrow> False)"
| "conforms (ZOptional s) v = (v = JUndefined \<or> conforms s v)"
| "conforms (ZObject shape) v =
     (case own_properties v of Some props \<Rightarrow> conforms_shape shape props | None \<Rightarrow> False)"
| "conforms_shape [] props = True"
| "conforms_shape ((k, s) # shape) props =
     (conforms s (case map_of props k of Some x \<Rightarrow> x | None \<Rightarrow> JUndefined)
      \<and> conforms_shape shape props)"

text \<open>The schema node itself rejects the value (its type is wrong at this very place).\<close>

fun rejects_here :: "schema \<Rightarrow> jsval \<Rightarrow> bool" where
  "rejects_here ZString v = (case v of JStr s \<Rightarrow> False | _ \<Rightarrow> True)"
| "rejects_here ZNumber v = (case v of JNum n \<Rightarrow> False | _ \<Rightarrow> True)"
| "rejects_here ZDate v = (case v of JDate t \<Rightarrow> False | _ \<Rightarrow> True)"
| "rejects_here (ZEnum opts) v = (case v of JStr s \<Rightarrow> s \<notin> set opts | _ \<Rightarrow> True)"
| "rejects_here (ZOptional s) v = (v \<noteq> JUndefined \<and> rejects_here s v)"
| "rejects_here (ZObject shape) v = (own_properties v = None)"

text \<open>
  \<open>fails_at s v p\<close>: following the field names \<open>p\<close> from the input \<open>v\<close> and from the
  schema \<open>s\<close> in step leads to a declared field whose value the field's schema rejects.
\<close>

fun fails_at :: "schema \<Rightarrow> jsval \<Rightarrow> string list \<Rightarrow> bool" where
  "fails_at s v [] = rejects_here s v"
| "fails_at (ZObject shape) v (k # p) =
     (case own_properties v of
        Some props \<Rightarrow>
          (case map_of shape k of
             Some sk \<Rightarrow> fails_at sk (case map_of props k of Some x \<Rightarrow> x | None \<Rightarrow> JUndefined) p
           | None \<Rightarrow> False)
      | None \<Rightarrow> False)"
| "fails_at (ZOptional s) v (k # p) = (v \<noteq> JUndefined \<and> fails_at s v (k # p))"
| "fails_at s v (k # p) = False"

text \<open>An object literal has each key once, at every level of the schema.\<close>

fun wf_schema :: "schema \<Rightarrow> bool"
  and wf_shape :: "(string \<times> schema) list \<Rightarrow> bool"
where
  "wf_schema (ZOptional s) = wf_schema s"
| "wf_schema (ZObject shape) = (distinct (map fst shape) \<and> wf_shape shape)"
| "wf_schema s = True"
| "wf_shape [] = True"
| "wf_shape ((k, s) # shape) = (wf_schema s \<and> wf_shape shape)"

section \<open>The procedure registry\<close>

text \<open>
  What a handler can see and change: the clock, the environment variable
  \<^verbatim>\<open>npm_package_version\<close> and the lines written with \<^verbatim>\<open>console.log\<close>.
\<close>

record world =
  now :: int
  npm_package_version :: "string option"
  console :: "string list"

datatype proc_kind = Query | Mutation | Subscription

datatype rpc_error =
    ValidationError "issue list"
  | AuthError
  | NotFoundError string
  | InternalError string js_exn

type_synonym resolver = "jsval \<Rightarrow> world \<Rightarrow> (js_exn + jsval) \<times> world"

record procedure =
  kind :: proc_kind
  input_schema :: "schema option"
  resolve :: resolver

text \<open>
  Modelled from the spec: the procedure builder of \<^verbatim>\<open>trpc/init\<close> (\<^verbatim>\<open>baseProcedure\<close>
  with \<^verbatim>\<open>.input\<close>, \<^verbatim>\<open>.query\<close> and \<^verbatim>\<open>.mutation\<close>) is not among the source files. By
  section 3 a procedure has a kind, an optional input validator and a handler; the base
  procedure has no validator and no authorization check.
\<close>

type_synonym procedure_builder = "schema option"

definition baseProcedure :: procedure_builder where
  "baseProcedure = None"

definition input :: "schema \<Rightarrow> procedure_builder \<Rightarrow> procedure_builder" where
  "input s b = Some s"

definition query :: "resolver \<Rightarrow> procedure_builder \<Rightarrow> procedure" where
  "query h b = \<lparr>kind = Query, input_schema = b, resolve = h\<rparr>"

definition mutation :: "resolver \<Rightarrow> procedure_builder \<Rightarrow> procedure" where
  "mutation h b = \<lparr>kind = Mutation, input_schema = b, resolve = h\<rparr>"

text \<open>
  Modelled from the spec: \<^verbatim>\<open>createTRPCRouter\<close> of \<^verbatim>\<open>trpc/init\<close> is not among the
  source files. By sections 2 and 4.1 the registry is a mapping from dotted names to
  procedures, looked up by the exact dotted path; a router nested under a key contributes
  its procedures under that key, a dot and their own path.
\<close>

type_synonym router = "(string \<times> procedure) list"

datatype router_entry = Proc procedure | Sub router

fun mount :: "string \<times> router_entry \<Rightarrow> router" where
  "mount (k, Proc p) = [(k, p)]"
| "mount (k, Sub r) = map (\<lambda>(k', p). (k @ ''.'' @ k', p)) r"

definition createTRPCRouter :: "(string \<times> router_entry) list \<Rightarrow> router" where
  "createTRPCRouter entries = concat (map mount entries)"

text \<open>
  Modelled from the spec: the invocation of a procedure (section 4.1), which the source
  files leave to \<^verbatim>\<open>trpc/init\<close>. The raw input is validated first when the procedure has
  an input schema; a failure short-circuits with a \<open>ValidationError\<close> carrying the
  issues and the handler is not run. Otherwise the handler runs on the validated input
  (on \<^verbatim>\<open>undefined\<close> when there is no schema); its result is returned unchanged, and an
  exception it throws is wrapped with the procedure path.
\<close>

definition call_procedure :: "string \<Rightarrow> procedure \<Rightarrow> jsval \<Rightarrow> world \<Rightarrow> (rpc_error + jsval) \<times> world" where
  "call_procedure path p raw w =
     (case (case input_schema p of None \<Rightarrow> Inr JUndefined | Some s \<Rightarrow> parse s [] raw) of
        Inl is \<Rightarrow> (Inl (ValidationError is), w)
      | Inr v \<Rightarrow>
          (case resolve p v w of
             (Inl e, w') \<Rightarrow> (Inl (InternalError path e), w')
           | (Inr r, w') \<Rightarrow> (Inr r, w')))"

text \<open>
  Modelled from the spec: invoking a dotted path on a router (sections 4.1 and 8): a path
  that is not registered fails with a \<open>NotFoundError\<close>, a registered one calls its
  procedure.
\<close>

definition invoke :: "router \<Rightarrow> string \<Rightarrow> jsval \<Rightarrow> world \<Rightarrow> (rpc_error + jsval) \<times> world" where
  "invoke r path raw w =
     (case map_of r path of
        None \<Rightarrow> (Inl (NotFoundError path), w)
      | Some p \<Rightarrow> call_procedure path p raw w)"

section \<open>The health router (features/health)\<close>

text \<open>\<^verbatim>\<open>process.env.npm_package_version\<close>: a string, or \<^verbatim>\<open>undefined\<close> when unset.\<close>

definition env_npm_package_version :: "world \<Rightarrow> jsval" where
  "env_npm_package_version w = (case npm_package_version w of None \<Rightarrow> JUndefined | Some s \<Rightarrow> JStr s)"

text \<open>
  The three handlers. \<open>startTime\<close> is the module constant \<^verbatim>\<open>const startTime = Date.now()\<close>,
  read once when the module is loaded; a call reads the clock of its own world.
\<close>

definition check_handler :: "int \<Rightarrow> resolver" where
  "check_handler startTime inp w =
     (Inr (JObj
        [(''status'', JStr ''ok''),
         (''timestamp'', JDate (now w)),
         (''version'', nullish (env_npm_package_version w) (JStr ''0.0.1'')),
         (''uptime'', JNum ((now w - startTime) div 1000))]), w)"

definition ping_handler :: resolver where
  "ping_handler inp w =
     (case member inp ''echo'' of
        Inl e \<Rightarrow> (Inl e, w)
      | Inr e \<Rightarrow> (Inr (JObj [(''message'', JStr ''pong''), (''echo'', e)]), w))"

text \<open>
  The text a template literal interpolates. After validation the interpolated value of
  \<^verbatim>\<open>log\<close> is a string; the renderings of the other values are not needed and are
  left empty.
\<close>

fun to_string :: "jsval \<Rightarrow> string" where
  "to_string (JStr s) = s"
| "to_string v = []"

definition log_handler :: resolver where
  "log_handler inp w =
     (case member inp ''echo'' of
        Inl e \<Rightarrow> (Inl e, w)
      | Inr e \<Rightarrow>
          (Inr (JObj [(''logged'', JBool True), (''timestamp'', JDate (now w))]),
           w\<lparr>console := console w @ [''[Health Log] '' @ to_string (nullish e (JStr ''No message''))]\<rparr>))"

definition healthRouter :: "int \<Rightarrow> router" where
  "healthRouter startTime = createTRPCRouter
     [(''check'', Proc (query (check_handler startTime) baseProcedure)),
      (''ping'', Proc (query ping_handler (input pingInputSchema baseProcedure))),
      (''log'', Proc (mutation log_handler (input pingInputSchema baseProcedure)))]"

text \<open>\<^verbatim>\<open>trpc/routers/_app\<close>: the assembled router.\<close>

definition appRouter :: "int \<Rightarrow> router" where
  "appRouter startTime = createTRPCRouter [(''health'', Sub (healthRouter startTime))]"

section \<open>The request/hydration bridge (trpc/server)\<close>

record query_options =
  queryKey :: "jsval list"

datatype population = PrefetchQuery query_options | PrefetchInfiniteQuery query_options

text \<open>
  Modelled from the spec: \<^verbatim>\<open>makeQueryClient\<close> of \<^verbatim>\<open>trpc/query-client\<close> is not among
  the source files. The query client of a render is represented by the population
  routines that have been started on it, in order; a fresh one has none.
\<close>

record query_client =
  issued :: "population list"

definition makeQueryClient :: query_client where
  "makeQueryClient = \<lparr>issued = []\<rparr>"

definition prefetchQuery :: "query_options \<Rightarrow> query_client \<Rightarrow> query_client" where
  "prefetchQuery qo qc = qc\<lparr>issued := issued qc @ [PrefetchQuery qo]\<rparr>"

definition prefetchInfiniteQuery :: "query_options \<Rightarrow> query_client \<Rightarrow> query_client" where
  "prefetchInfiniteQuery qo qc = qc\<lparr>issued := issued qc @ [PrefetchInfiniteQuery qo]\<rparr>"

text \<open>
  Within one render \<^verbatim>\<open>getQueryClient\<close> makes the client on its first call and returns
  that same client afterwards; the render's scope holds it.
\<close>

type_synonym render_scope = "query_client option"

definition getQueryClient :: "render_scope \<Rightarrow> query_client" where
  "getQueryClient scope = (case scope of None \<Rightarrow> makeQueryClient | Some qc \<Rightarrow> qc)"

definition prefetch :: "query_options \<Rightarrow> render_scope \<Rightarrow> render_scope" where
  "prefetch queryOptions scope =
     (let queryClient = getQueryClient scope in
      if opt_member (index_js (queryKey queryOptions) 1) ''type'' = JStr ''infinite''
      then Some (prefetchInfiniteQuery queryOptions queryClient)
      else Some (prefetchQuery queryOptions queryClient))"

text \<open>The second element of the query key is an object whose \<^verbatim>\<open>type\<close> is \<^verbatim>\<open>"infinite"\<close>.\<close>

definition infinite_tag :: "query_options \<Rightarrow> bool" where
  "infinite_tag qo =
     (case queryKey qo of
        k0 # JObj props # rest \<Rightarrow> map_of props ''type'' = Some (JStr ''infinite'')
      | _ \<Rightarrow> False)"

section \<open>The parser\<close>

text \<open>A rejection always carries at least one issue.\<close>

lemma parse_issues_nonempty: "parse s path v = Inl is \<Longrightarrow> is \<noteq> []"
proof (induction s arbitrary: "is")
  case (ZObject shape)
  then show ?case by (auto split: option.splits prod.splits list.splits)
qed (auto split: jsval.splits if_splits)

text \<open>The parser rejects exactly the values that do not conform to the schema.\<close>

lemma parse_conforms:
  "isl (parse s path v) = (\<not> conforms s v)"
  "(fst (parse_shape shape path props) = []) = conforms_shape shape props"
proof (induction s path v and shape path props rule: parse_parse_shape.induct)
  case (6 shape path v)
  then show ?case by (cases "own_properties v") (auto split: prod.splits list.splits)
next
  case (8 k s shape path props)
  obtain js out where ps: "parse_shape shape path props = (js, out)" by (cases "parse_shape shape path props")
  let ?x = "case map_of props k of Some x \<Rightarrow> x | None \<Rightarrow> JUndefined"
  have a: "isl (parse s (path @ [k]) ?x) = (\<not> conforms s ?x)"
    using 8(2)[OF ps[symmetric] refl] .
  have b: "(js = []) = conforms_shape shape props" using 8(1) ps by simp
  show ?case
  proof (cases "parse s (path @ [k]) ?x")
    case (Inl iss)
    then have "iss \<noteq> []" by (rule parse_issues_nonempty)
    with Inl a show ?thesis by (simp add: ps)
  next
    case (Inr y)
    with a b show ?thesis by (simp add: ps)
  qed
qed (auto split: jsval.splits)

text \<open>
  Every issue of a rejection carries the path of a declared field (or of the input itself)
  whose value the schema of that field rejects.
\<close>

lemma parse_issues_located:
  "wf_schema s \<Longrightarrow> parse s path v = Inl iss \<Longrightarrow> i \<in> set iss
     \<Longrightarrow> \<exists>p. issue_path i = path @ p \<and> fails_at s v p"
  "wf_shape shape \<Longrightarrow> distinct (map fst shape) \<Longrightarrow> i \<in> set (fst (parse_shape shape path props))
     \<Longrightarrow> \<exists>k p sk. issue_path i = path @ k # p \<and> map_of shape k = Some sk
           \<and> fails_at sk (case map_of props k of Some x \<Rightarrow> x | None \<Rightarrow> JUndefined) p"
proof (induction s path v and shape path props arbitrary: iss i and i rule: parse_parse_shape.induct)
  case (5 s path v)
  then have nu: "v \<noteq> JUndefined" and "parse s path v = Inl iss" and "wf_schema s"
    by (auto split: if_splits)
  with 5 obtain p where p: "issue_path i = path @ p" "fails_at s v p" by blast
  with nu have "fails_at (ZOptional s) v p" by (cases p) auto
  with p show ?case by blast
next
  case (6 shape path v)
  show ?case
  proof (cases "own_properties v")
    case (Some props)
    with 6(3,4) have "i \<in> set (fst (parse_shape shape path props))"
      by (auto split: prod.splits list.splits)
    with 6(1)[OF Some] 6(2) obtain k p sk where
      "issue_path i = path @ k # p" "map_of shape k = Some sk"
      "fails_at sk (case map_of props k of Some x \<Rightarrow> x | None \<Rightarrow> JUndefined) p"
      by auto blast
    with Some show ?thesis by (intro exI[of _ "k # p"]) simp
  next
    case None
    with 6 show ?thesis by (auto intro!: exI[of _ "[]"])
  qed
next
  case (8 k s shape path props)
  obtain js out where ps: "parse_shape shape path props = (js, out)" by (cases "parse_shape shape path props")
  let ?x = "case map_of props k of Some x \<Rightarrow> x | None \<Rightarrow> JUndefined"
  from 8(3) have wf: "wf_schema s" "wf_shape shape" by auto
  from 8(4) have d: "k \<notin> fst ` set shape" "distinct (map fst shape)" by auto
  show ?case
  proof (cases "i \<in> set js")
    case True
    with 8(1)[OF wf(2) d(2)] ps obtain k' p sk where
      h: "issue_path i = path @ k' # p" "map_of shape k' = Some sk"
      "fails_at sk (case map_of props k' of Some x \<Rightarrow> x | None \<Rightarrow> JUndefined) p"
      by auto blast
    from h(2) have "k' \<in> fst ` set shape" by (meson domI domIff map_of_eq_None_iff)
    with d have "k' \<noteq> k" by auto
    with h show ?thesis by auto
  next
    case False
    with 8(5) ps obtain iss where iss: "parse s (path @ [k]) ?x = Inl iss" "i \<in> set iss"
      by (auto split: sum.splits)
    from 8(2)[OF ps[symmetric] refl wf(1) iss] obtain p where
      "issue_path i = (path @ [k]) @ p" "fails_at s ?x p" by blast
    then show ?thesis by auto
  qed
qed (auto split: jsval.splits if_splits)

text \<open>
  Conversely no failing field is left out: every path at which a declared field's value is
  rejected is the path of one of the issues.
\<close>

lemma parse_issues_complete:
  "fails_at s v p \<Longrightarrow> \<exists>iss. parse s path v = Inl iss \<and> path @ p \<in> issue_path ` set iss"
  "map_of shape k = Some sk
     \<Longrightarrow> fails_at sk (case map_of props k of Some x \<Rightarrow> x | None \<Rightarrow> JUndefined) q
     \<Longrightarrow> path @ k # q \<in> issue_path ` set (fst (parse_shape shape path props))"
proof (induction s path v and shape path props arbitrary: p and k sk q rule: parse_parse_shape.induct)
  case (1 path v)
  then show ?case by (cases p) (auto split: jsval.splits)
next
  case (2 path v)
  then show ?case by (cases p) (auto split: jsval.splits)
next
  case (3 path v)
  then show ?case by (cases p) (auto split: jsval.splits)
next
  case (4 opts path v)
  then show ?case by (cases p) (auto split: jsval.splits)
next
  case (5 s path v)
  from 5(2) have nu: "v \<noteq> JUndefined" by (cases p) auto
  from 5(2) have "fails_at s v p" by (cases p) auto
  from 5(1)[OF nu this] nu show ?case by simp
next
  case (6 shape path v)
  show ?case
  proof (cases "own_properties v")
    case None
    with 6(2) show ?thesis by (cases p) auto
  next
    case (Some props)
    with 6(2) obtain k q sk where p: "p = k # q" and sk: "map_of shape k = Some sk"
      and f: "fails_at sk (case map_of props k of Some x \<Rightarrow> x | None \<Rightarrow> JUndefined) q"
      by (cases p) (auto split: option.splits)
    from 6(1)[OF Some sk f]
    have m: "path @ k # q \<in> issue_path ` set (fst (parse_shape shape path props))" .
    obtain js out where ps: "parse_shape shape path props = (js, out)"
      by (cases "parse_shape shape path props")
    with m have "js \<noteq> []" by auto
    with m ps show ?thesis by (cases js) (simp_all add: Some p)
  qed
next
  case (7 path props)
  then show ?case by simp
next
  case (8 k' s shape path props)
  obtain js out where ps: "parse_shape shape path props = (js, out)" by (cases "parse_shape shape path props")
  let ?x = "case map_of props k' of Some x \<Rightarrow> x | None \<Rightarrow> JUndefined"
  show ?case
  proof (cases "k = k'")
    case True
    with 8(3,4) have "fails_at s ?x q" by simp
    from 8(2)[OF ps[symmetric] refl this] obtain iss where
      "parse s (path @ [k']) ?x = Inl iss" "(path @ [k']) @ q \<in> issue_path ` set iss" by blast
    with True show ?thesis by (auto simp: ps)
  next
    case False
    with 8(3) have "map_of shape k = Some sk" by simp
    from 8(1)[OF this 8(4)] have "path @ k # q \<in> issue_path ` set js" by (simp add: ps)
    then show ?thesis by (cases "parse s (path @ [k']) ?x") (auto simp: ps)
  qed
qed

section \<open>Dispatch of prefetch\<close>

text \<open>
  The test \<^verbatim>\<open>queryOptions.queryKey[1]?.type === "infinite"\<close> holds exactly when the
  query key has a second element that is an object with the property \<^verbatim>\<open>type\<close> equal to
  the string \<^verbatim>\<open>"infinite"\<close>.
\<close>

lemma tag_test: "(opt_member (index_js (queryKey qo) 1) ''type'' = JStr ''infinite'') = infinite_tag qo"
proof (cases "queryKey qo")
  case Nil
  then show ?thesis by (simp add: infinite_tag_def opt_member_def)
next
  case (Cons k0 ks)
  show ?thesis
  proof (cases ks)
    case Nil
    with Cons show ?thesis by (simp add: infinite_tag_def opt_member_def)
  next
    case (Cons v rest)
    with \<open>queryKey qo = k0 # ks\<close> show ?thesis
      by (cases v) (auto simp: infinite_tag_def opt_member_def split: option.splits)
  qed
qed

text \<open>
  C3. For every query-options value, \<open>prefetch\<close> starts exactly one population routine on
  the render's query client: \<^verbatim>\<open>prefetchInfiniteQuery\<close> when the second element of the
  query key carries the tag \<^verbatim>\<open>type = "infinite"\<close>, and \<^verbatim>\<open>prefetchQuery\<close> otherwise.
  Nothing else is started.
\<close>

theorem prefetch_dispatch:
  "prefetch qo scope =
     Some ((getQueryClient scope)\<lparr>issued := issued (getQueryClient scope) @
        [if infinite_tag qo then PrefetchInfiniteQuery qo else PrefetchQuery qo]\<rparr>)"
  unfolding prefetch_def Let_def tag_test prefetchQuery_def prefetchInfiniteQuery_def
  by simp

theorem prefetch_dispatch_witness:
  "prefetch \<lparr>queryKey = [JArr [JStr ''health'', JStr ''check''], JObj [(''type'', JStr ''infinite'')]]\<rparr> None
     = Some \<lparr>issued = [PrefetchInfiniteQuery
         \<lparr>queryKey = [JArr [JStr ''health'', JStr ''check''], JObj [(''type'', JStr ''infinite'')]]\<rparr>]\<rparr>
   \<and> prefetch \<lparr>queryKey = [JArr [JStr ''health'', JStr ''check''], JObj [(''type'', JStr ''query'')]]\<rparr> None
     = Some \<lparr>issued = [PrefetchQuery
         \<lparr>queryKey = [JArr [JStr ''health'', JStr ''check''], JObj [(''type'', JStr ''query'')]]\<rparr>]\<rparr>
   \<and> prefetch \<lparr>queryKey = [JArr [JStr ''health'', JStr ''check'']]\<rparr> None
     = Some \<lparr>issued = [PrefetchQuery \<lparr>queryKey = [JArr [JStr ''health'', JStr ''check'']]\<rparr>]\<rparr>"
  using prefetch_dispatch [of "\<lparr>queryKey = [JArr [JStr ''health'', JStr ''check''], JObj [(''type'', JStr ''infinite'')]]\<rparr>" None]
    prefetch_dispatch [of "\<lparr>queryKey = [JArr [JStr ''health'', JStr ''check''], JObj [(''type'', JStr ''query'')]]\<rparr>" None]
    prefetch_dispatch [of "\<lparr>queryKey = [JArr [JStr ''health'', JStr ''check'']]\<rparr>" None]
  by (simp add: infinite_tag_def getQueryClient_def makeQueryClient_def)

section \<open>The assembled router\<close>

text \<open>The dotted paths of \<open>appRouter\<close>, and the procedure registered at each.\<close>

lemma registered_paths:
  "map fst (appRouter st) = [''health.check'', ''health.ping'', ''health.log'']"
  by (simp add: appRouter_def healthRouter_def createTRPCRouter_def)

lemma lookup_check:
  "map_of (appRouter st) ''health.check'' = Some (query (check_handler st) baseProcedure)"
  by (simp add: appRouter_def healthRouter_def createTRPCRouter_def)

lemma lookup_ping:
  "map_of (appRouter st) ''health.ping'' = Some (query ping_handler (input pingInputSchema baseProcedure))"
  by (simp add: appRouter_def healthRouter_def createTRPCRouter_def)

lemma lookup_log:
  "map_of (appRouter st) ''health.log'' = Some (mutation log_handler (input pingInputSchema baseProcedure))"
  by (simp add: appRouter_def healthRouter_def createTRPCRouter_def)

text \<open>
  C7. Invoking a dotted path that is not registered in \<open>appRouter\<close> gives a
  \<open>NotFoundError\<close> for that path and leaves the world as it was: it never returns
  successfully.
\<close>

theorem unregistered_not_found:
  assumes "path \<notin> {''health.check'', ''health.ping'', ''health.log''}"
  shows "invoke (appRouter st) path raw w = (Inl (NotFoundError path), w)"
proof -
  have "path \<notin> set (map fst (appRouter st))"
    unfolding registered_paths using assms by simp
  then have "map_of (appRouter st) path = None"
    by (simp add: map_of_eq_None_iff)
  then show ?thesis by (simp add: invoke_def)
qed

theorem unregistered_not_found_witness:
  "''health.pong'' \<notin> {''health.check'', ''health.ping'', ''health.log''}
   \<and> invoke (appRouter 0) ''health.pong'' JUndefined \<lparr>now = 5000, npm_package_version = None, console = []\<rparr>
     = (Inl (NotFoundError ''health.pong''), \<lparr>now = 5000, npm_package_version = None, console = []\<rparr>)"
  using unregistered_not_found [of "''health.pong''" 0 JUndefined "\<lparr>now = 5000, npm_package_version = None, console = []\<rparr>"]
  by simp

section \<open>Validation before the handler\<close>

text \<open>
  C4. For every procedure with an input schema and every input that the schema does not
  accept, the call returns a \<open>ValidationError\<close>. Its issue list is not empty and
  identifies the failing fields: the paths of its issues are exactly the paths at which the
  value of a declared field is rejected by the schema declared for it (the empty path is
  the input as a whole), none left out and none added. The handler is not run: whatever
  handler the procedure has, the result is this same error and the world is unchanged.
\<close>

theorem validation_short_circuits:
  assumes "input_schema p = Some s" and "wf_schema s" and "\<not> conforms s raw"
  shows "\<exists>iss. iss \<noteq> []
           \<and> issue_path ` set iss = {q. fails_at s raw q}
           \<and> (\<forall>h. call_procedure path (p\<lparr>resolve := h\<rparr>) raw w = (Inl (ValidationError iss), w))"
proof -
  from assms(3) have "isl (parse s [] raw)" by (simp add: parse_conforms(1))
  then obtain iss where iss: "parse s [] raw = Inl iss" by (auto simp: isl_def)
  then have ne: "iss \<noteq> []" by (rule parse_issues_nonempty)
  have "issue_path ` set iss = {q. fails_at s raw q}"
  proof (intro equalityI subsetI)
    fix q assume "q \<in> issue_path ` set iss"
    then obtain i where "i \<in> set iss" "q = issue_path i" by blast
    with parse_issues_located(1)[OF assms(2) iss] show "q \<in> {q. fails_at s raw q}" by force
  next
    fix q assume "q \<in> {q. fails_at s raw q}"
    then have "fails_at s raw q" by simp
    from parse_issues_complete(1)[OF this, of "[]"] iss show "q \<in> issue_path ` set iss" by simp
  qed
  moreover have "\<forall>h. call_procedure path (p\<lparr>resolve := h\<rparr>) raw w = (Inl (ValidationError iss), w)"
    by (simp add: call_procedure_def assms(1) iss)
  ultimately show ?thesis using ne by blast
qed

theorem validation_short_circuits_witness:
  "input_schema (query ping_handler (input pingInputSchema baseProcedure)) = Some pingInputSchema
   \<and> wf_schema pingInputSchema
   \<and> \<not> conforms pingInputSchema (JObj [(''echo'', JNum 5)])
   \<and> (\<exists>iss. iss \<noteq> []
         \<and> issue_path ` set iss = {q. fails_at pingInputSchema (JObj [(''echo'', JNum 5)]) q}
         \<and> (\<forall>h. call_procedure ''health.ping''
                  ((query ping_handler (input pingInputSchema baseProcedure))\<lparr>resolve := h\<rparr>)
                  (JObj [(''echo'', JNum 5)]) \<lparr>now = 0, npm_package_version = None, console = []\<rparr>
                = (Inl (ValidationError iss), \<lparr>now = 0, npm_package_version = None, console = []\<rparr>)))"
proof -
  have a: "input_schema (query ping_handler (input pingInputSchema baseProcedure)) = Some pingInputSchema"
    by (simp add: query_def input_def)
  have b: "wf_schema pingInputSchema" by (simp add: pingInputSchema_def)
  have c: "\<not> conforms pingInputSchema (JObj [(''echo'', JNum 5)])" by (simp add: pingInputSchema_def)
  from validation_short_circuits [OF a b c, of "''health.ping''" "\<lparr>now = 0, npm_package_version = None, console = []\<rparr>"] a b c
  show ?thesis by blast
qed

section \<open>The scenarios of the health procedures\<close>

text \<open>What \<open>pingInputSchema\<close> makes of each raw input.\<close>

lemma ping_parse_cases:
  "parse pingInputSchema [] raw =
     (case own_properties raw of
        Some props \<Rightarrow>
          (case map_of props ''echo'' of
             None \<Rightarrow> Inr (JObj [])
           | Some JUndefined \<Rightarrow> Inr (JObj [(''echo'', JUndefined)])
           | Some (JStr e) \<Rightarrow> Inr (JObj [(''echo'', JStr e)])
           | Some x \<Rightarrow> Inl [Issue [''echo''] ''string''])
      | None \<Rightarrow> Inl [Issue [] ''object''])"
  by (simp add: pingInputSchema_def split: jsval.splits option.splits)

text \<open>
  C5, as amended. \<^verbatim>\<open>health.ping\<close> with \<^verbatim>\<open>{echo: "hi"}\<close> returns
  \<^verbatim>\<open>{message: "pong", echo: "hi"}\<close>; with an object that has no \<^verbatim>\<open>echo\<close> it returns
  \<^verbatim>\<open>{message: "pong", echo: undefined}\<close>; with no input at all the object schema
  rejects \<^verbatim>\<open>undefined\<close> and the call fails with a validation error on the input as a
  whole, the handler not being run.
\<close>

theorem ping_scenarios:
  "invoke (appRouter st) ''health.ping'' (JObj [(''echo'', JStr ''hi'')]) w
     = (Inr (JObj [(''message'', JStr ''pong''), (''echo'', JStr ''hi'')]), w)
   \<and> invoke (appRouter st) ''health.ping'' (JObj []) w
     = (Inr (JObj [(''message'', JStr ''pong''), (''echo'', JUndefined)]), w)
   \<and> invoke (appRouter st) ''health.ping'' JUndefined w
     = (Inl (ValidationError [Issue [] ''object'']), w)"
  by (simp add: invoke_def lookup_ping call_procedure_def query_def input_def ping_parse_cases
      ping_handler_def)

text \<open>
  A \<^verbatim>\<open>Date\<close> passes the object test and has no \<^verbatim>\<open>echo\<close>: it is accepted like the
  empty object and the handler runs.
\<close>

lemma ping_on_date:
  "invoke (appRouter st) ''health.ping'' (JDate t) w
     = (Inr (JObj [(''message'', JStr ''pong''), (''echo'', JUndefined)]), w)"
  by (simp add: invoke_def lookup_ping call_procedure_def query_def input_def ping_parse_cases
      ping_handler_def)

text \<open>
  C5 as stated fails: \<^verbatim>\<open>health.ping\<close> with no input does not return
  \<^verbatim>\<open>{message: "pong", echo: undefined}\<close>, it returns a validation error.
\<close>

theorem ping_absent_input_counterexample:
  "invoke (appRouter 0) ''health.ping'' JUndefined \<lparr>now = 0, npm_package_version = None, console = []\<rparr>
     = (Inl (ValidationError [Issue [] ''object'']), \<lparr>now = 0, npm_package_version = None, console = []\<rparr>)
   \<and> fst (invoke (appRouter 0) ''health.ping'' JUndefined \<lparr>now = 0, npm_package_version = None, console = []\<rparr>)
     \<noteq> Inr (JObj [(''message'', JStr ''pong''), (''echo'', JUndefined)])"
  by (simp add: invoke_def lookup_ping call_procedure_def query_def input_def ping_parse_cases)


text \<open>
  The inputs \<open>pingInputSchema\<close> accepts: what passes the object test and has an
  \<^verbatim>\<open>echo\<close> that is absent, \<^verbatim>\<open>undefined\<close> or a string.
\<close>

lemma conforms_ping_input:
  "conforms pingInputSchema raw =
     (\<exists>props. own_properties raw = Some props \<and>
        (map_of props ''echo'' = None \<or> map_of props ''echo'' = Some JUndefined
         \<or> (\<exists>e. map_of props ''echo'' = Some (JStr e))))"
  by (cases "own_properties raw") (auto simp: pingInputSchema_def split: option.splits jsval.splits)

text \<open>Reading a property of a value that passes the object test.\<close>

lemma opt_member_own:
  "own_properties raw = Some props \<Longrightarrow>
     opt_member raw k = (case map_of props k of Some x \<Rightarrow> x | None \<Rightarrow> JUndefined)"
  by (cases raw) (auto simp: opt_member_def)

text \<open>
  C6 as stated fails: \<^verbatim>\<open>health.log\<close> with no input produces an error result.
\<close>

theorem log_absent_input_counterexample:
  "invoke (appRouter 0) ''health.log'' JUndefined \<lparr>now = 0, npm_package_version = None, console = []\<rparr>
     = (Inl (ValidationError [Issue [] ''object'']), \<lparr>now = 0, npm_package_version = None, console = []\<rparr>)
   \<and> isl (fst (invoke (appRouter 0) ''health.log'' JUndefined
        \<lparr>now = 0, npm_package_version = None, console = []\<rparr>))"
  by (simp add: invoke_def lookup_log call_procedure_def mutation_def input_def ping_parse_cases)

text \<open>
  C6, as amended. For every input that \<open>pingInputSchema\<close> accepts (\<^verbatim>\<open>{echo: "x"}\<close>
  among them) \<^verbatim>\<open>health.log\<close> returns \<^verbatim>\<open>{logged: true, timestamp: <Date>}\<close> with the
  date of the call, after writing one line to the console: the echo, or
  \<^verbatim>\<open>No message\<close> when there is none. With no input at all the call fails with a
  validation error and writes nothing.
\<close>

theorem log_on_valid_input:
  "(conforms pingInputSchema raw \<longrightarrow>
      invoke (appRouter st) ''health.log'' raw w
        = (Inr (JObj [(''logged'', JBool True), (''timestamp'', JDate (now w))]),
           w\<lparr>console := console w @
             [''[Health Log] '' @ (case opt_member raw ''echo'' of JStr e \<Rightarrow> e | _ \<Rightarrow> ''No message'')]\<rparr>))
   \<and> invoke (appRouter st) ''health.log'' JUndefined w
        = (Inl (ValidationError [Issue [] ''object'']), w)"
proof (intro conjI impI)
  assume "conforms pingInputSchema raw"
  then obtain props where raw: "own_properties raw = Some props"
    and echo: "map_of props ''echo'' = None \<or> map_of props ''echo'' = Some JUndefined
         \<or> (\<exists>e. map_of props ''echo'' = Some (JStr e))"
    by (auto simp: conforms_ping_input)
  from echo show "invoke (appRouter st) ''health.log'' raw w
        = (Inr (JObj [(''logged'', JBool True), (''timestamp'', JDate (now w))]),
           w\<lparr>console := console w @
             [''[Health Log] '' @ (case opt_member raw ''echo'' of JStr e \<Rightarrow> e | _ \<Rightarrow> ''No message'')]\<rparr>)"
    by (auto simp: raw opt_member_own [OF raw] invoke_def lookup_log call_procedure_def
        mutation_def input_def ping_parse_cases log_handler_def nullish_def)
next
  show "invoke (appRouter st) ''health.log'' JUndefined w
        = (Inl (ValidationError [Issue [] ''object'']), w)"
    by (simp add: invoke_def lookup_log call_procedure_def mutation_def input_def ping_parse_cases)
qed

theorem log_on_valid_input_witness:
  "conforms pingInputSchema (JObj [(''echo'', JStr ''x'')])
   \<and> invoke (appRouter 0) ''health.log'' (JObj [(''echo'', JStr ''x'')])
        \<lparr>now = 5000, npm_package_version = None, console = []\<rparr>
     = (Inr (JObj [(''logged'', JBool True), (''timestamp'', JDate 5000)]),
        \<lparr>now = 5000, npm_package_version = None, console = [''[Health Log] x'']\<rparr>)"
proof -
  have c: "conforms pingInputSchema (JObj [(''echo'', JStr ''x'')])"
    by (simp add: pingInputSchema_def)
  from log_on_valid_input [of "JObj [(''echo'', JStr ''x'')]" 0
      "\<lparr>now = 5000, npm_package_version = None, console = []\<rparr>"] c
  show ?thesis by (simp add: opt_member_def)
qed

text \<open>The result of \<^verbatim>\<open>health.check\<close>, whatever raw input the call carries.\<close>

lemma check_result:
  "invoke (appRouter st) ''health.check'' raw w =
     (Inr (JObj
        [(''status'', JStr ''ok''),
         (''timestamp'', JDate (now w)),
         (''version'', JStr (case npm_package_version w of None \<Rightarrow> ''0.0.1'' | Some v \<Rightarrow> v)),
         (''uptime'', JNum ((now w - st) div 1000))]), w)"
  by (simp add: invoke_def lookup_check call_procedure_def query_def baseProcedure_def
      check_handler_def nullish_def env_npm_package_version_def split: option.splits)

text \<open>
  C8. When the clock at the call is not before \<open>startTime\<close>, \<^verbatim>\<open>health.check\<close>
  returns an object whose \<^verbatim>\<open>status\<close> is \<^verbatim>\<open>"ok"\<close>, whose \<^verbatim>\<open>version\<close> is a string and
  whose \<^verbatim>\<open>uptime\<close> is an integer that is at least 0.
\<close>

theorem check_scenario:
  assumes "startTime \<le> now w"
  shows "\<exists>version uptime.
           invoke (appRouter startTime) ''health.check'' raw w =
             (Inr (JObj
                [(''status'', JStr ''ok''),
                 (''timestamp'', JDate (now w)),
                 (''version'', JStr version),
                 (''uptime'', JNum uptime)]), w)
           \<and> 0 \<le> uptime"
proof -
  from assms have "0 \<le> (now w - startTime) div 1000" by simp
  then show ?thesis unfolding check_result by blast
qed

theorem check_scenario_witness:
  "(1000::int) \<le> now \<lparr>now = 6500, npm_package_version = Some ''1.2.3'', console = []\<rparr>
   \<and> (\<exists>version uptime.
        invoke (appRouter 1000) ''health.check'' JUndefined
            \<lparr>now = 6500, npm_package_version = Some ''1.2.3'', console = []\<rparr> =
          (Inr (JObj
             [(''status'', JStr ''ok''),
              (''timestamp'', JDate 6500),
              (''version'', JStr version),
              (''uptime'', JNum uptime)]),
           \<lparr>now = 6500, npm_package_version = Some ''1.2.3'', console = []\<rparr>)
        \<and> 0 \<le> uptime)"
  using check_scenario [of 1000 "\<lparr>now = 6500, npm_package_version = Some ''1.2.3'', console = []\<rparr>" JUndefined]
  by simp

text \<open>
  C9. \<open>healthCheckSchema\<close> allows the status values \<^verbatim>\<open>"ok"\<close>, \<^verbatim>\<open>"degraded"\<close> and
  \<^verbatim>\<open>"error"\<close>, but every call of \<^verbatim>\<open>health.check\<close> returns an object (conforming to
  that schema) whose status is \<^verbatim>\<open>"ok"\<close>, never \<^verbatim>\<open>"degraded"\<close> and never \<^verbatim>\<open>"error"\<close>.
\<close>

theorem check_status_always_ok:
  "(\<exists>shape. healthCheckSchema = ZObject shape
       \<and> map_of shape ''status'' = Some (ZEnum [''ok'', ''degraded'', ''error'']))
   \<and> (\<exists>r. fst (invoke (appRouter st) ''health.check'' raw w) = Inr r
        \<and> conforms healthCheckSchema r
        \<and> member r ''status'' = Inr (JStr ''ok'')
        \<and> member r ''status'' \<noteq> Inr (JStr ''degraded'')
        \<and> member r ''status'' \<noteq> Inr (JStr ''error''))"
  unfolding check_result by (simp add: healthCheckSchema_def)

text \<open>
  C10. The uptime of \<^verbatim>\<open>health.check\<close> is \<open>floor ((now - startTime) / 1000)\<close> and does
  not decrease: of two calls against the same \<open>startTime\<close>, the one at the later clock
  value reports an uptime at least as large. (The bound \<open>startTime \<le> now\<close> of the claim is
  not needed.)
\<close>

theorem check_uptime_monotone:
  assumes "now w1 \<le> now w2"
  shows "\<exists>r1 r2 u1 u2.
           fst (invoke (appRouter startTime) ''health.check'' raw1 w1) = Inr r1
         \<and> fst (invoke (appRouter startTime) ''health.check'' raw2 w2) = Inr r2
         \<and> member r1 ''uptime'' = Inr (JNum u1)
         \<and> member r2 ''uptime'' = Inr (JNum u2)
         \<and> u1 = (now w1 - startTime) div 1000
         \<and> u2 = (now w2 - startTime) div 1000
         \<and> u1 \<le> u2"
proof -
  from assms have "(now w1 - startTime) div 1000 \<le> (now w2 - startTime) div 1000"
    by (intro zdiv_mono1) simp_all
  then show ?thesis unfolding check_result by simp
qed

theorem check_uptime_monotone_witness:
  "now \<lparr>now = 1999, npm_package_version = None, console = []\<rparr>
     \<le> now \<lparr>now = 2000, npm_package_version = None, console = []\<rparr>
   \<and> (\<exists>r1 r2 u1 u2.
         fst (invoke (appRouter 0) ''health.check'' JUndefined
               \<lparr>now = 1999, npm_package_version = None, console = []\<rparr>) = Inr r1
       \<and> fst (invoke (appRouter 0) ''health.check'' JUndefined
               \<lparr>now = 2000, npm_package_version = None, console = []\<rparr>) = Inr r2
       \<and> member r1 ''uptime'' = Inr (JNum u1)
       \<and> member r2 ''uptime'' = Inr (JNum u2)
       \<and> u1 = 1 \<and> u2 = 2 \<and> u1 \<le> u2)"
  using check_uptime_monotone [of "\<lparr>now = 1999, npm_package_version = None, console = []\<rparr>"
      "\<lparr>now = 2000, npm_package_version = None, console = []\<rparr>" 0 JUndefined JUndefined]
  by simp

end
